theory Spec2Isabelle
  imports Main
begin

section \<open>The game engine of taniarascia/tictactoe\<close>

text \<open>
  The repository holds the class \<open>TicTacToe\<close> in two variants that differ in one method
  only. The TypeScript source (\<open>src/unnamed/part_002\<close>) nests the whole of \<open>clickCell\<close>
  under the test \<open>canContinue && !this.waiting\<close>; the JavaScript source
  (\<open>src/tictactoe.js\<close>) closes that test after the mark is placed and evaluates the
  win, the stalemate and the change of player on every click. All other methods are the
  same text in both. Both variants of \<open>clickCell\<close> are embedded below, over one state.
  (The other files are the compiler's output for the two variants, and an earlier script
  that keeps the game in global variables and has no class; they are not embedded.)

  Conventions of the embedding.
  \<^item> Tokens and cells are JavaScript strings: \<open>''''\<close> is the empty cell, and the players'
    tokens are \<open>''x''\<close> and \<open>''o''\<close>.
  \<^item> The board is an array of arrays, hence a list of lists; reading it follows
    JavaScript: an index outside the array gives \<open>undefined\<close> (here \<open>None\<close>), and reading
    a property of \<open>undefined\<close> throws a \<open>TypeError\<close>.
  \<^item> The arguments \<open>row\<close> and \<open>col\<close> are integers. The TypeScript variant declares them
    as numbers; the display of the JavaScript variant passes the strings \<open>"0"\<close>, \<open>"1"\<close>
    and \<open>"2"\<close> that it wrote into the document itself, which index the arrays as the
    integers 0, 1 and 2 do. (A fractional number and \<open>NaN\<close> read \<open>undefined\<close> as an integer
    out of range does.)
  \<^item> The two counters of the score hold counts of wins: non-negative integers, stored
    in doubles as every number of the source is. They are natural numbers here, and
    \<open>+= 1\<close> is the addition of doubles (\<open>js_add_one\<close>): exact below \<open>2 ^ 53\<close>, and from
    there on rounded to the nearest double, a tie going to the even mantissa, so that
    a counter that has reached \<open>2 ^ 53\<close> stays there.
  \<^item> The display is the injected collaborator. Its calls are recorded in a log, in
    the order the engine makes them; what it does to the document is outside the engine.
  \<^item> \<open>setTimeout\<close> adds one pending timer, recorded by its delay. Every timer of the
    engine has the same delay and the same callback, \<open>resetCallback\<close>, so the pending
    timers fire in the order they were set. The moment a timer fires is not modelled,
    only that it fires after the call that set it has returned.
\<close>

subsection \<open>State\<close>

type_synonym board = "string list list"

datatype error = TypeError

record Score =
  score_x :: nat
  score_o :: nat

datatype display_call =
    BindHandler
  | PrintScoreBoard Score
  | PrintGameBoard board
  | UpdateBoard int int string
  | UpdateScore Score string
  | PrintMessage "string option"
  | ClearMessage
  | ClearGameBoard

record TicTacToe =
  display :: "display_call list"
  board :: board
  waiting :: bool
  score :: Score
  currentPlayer :: string
  timers :: "nat list"

text \<open>\<open>this.players = { x: 'x', o: 'o' }\<close> and \<open>this.wait = 1500\<close> are never assigned again.\<close>

definition players_x :: string where
  "players_x = ''x''"

definition players_o :: string where
  "players_o = ''o''"

definition wait :: nat where
  "wait = 1500"

subsection \<open>Reading and writing the board\<close>

text \<open>\<open>xs[i]\<close>: the element, or \<open>undefined\<close> outside the array.\<close>

definition js_index :: "'a list \<Rightarrow> int \<Rightarrow> 'a option" where
  "js_index xs i = (if 0 \<le> i \<and> i < int (length xs) then Some (xs ! nat i) else None)"

text \<open>\<open>this.board[row][col]\<close>: throws when \<open>this.board[row]\<close> is \<open>undefined\<close>.\<close>

definition getCell :: "board \<Rightarrow> int \<Rightarrow> int \<Rightarrow> error + string option" where
  "getCell b row col =
     (case js_index b row of
        None \<Rightarrow> Inl TypeError
      | Some r \<Rightarrow> Inr (js_index r col))"

text \<open>
  \<open>this.board[row][col] = v\<close>. The only assignment of the source is guarded by
  \<open>this.board[row][col] === ''\<close>, so it is reached with both indices inside the arrays;
  outside them this function leaves the board as it is.
\<close>

definition setCell :: "board \<Rightarrow> int \<Rightarrow> int \<Rightarrow> string \<Rightarrow> board" where
  "setCell b row col v =
     (case js_index b row of
        None \<Rightarrow> b
      | Some r \<Rightarrow>
          if 0 \<le> col \<and> col < int (length r) then b[nat row := r[nat col := v]] else b)"

text \<open>\<open>&&\<close> and \<open>||\<close> evaluate their right operand only when the left one asks for it.\<close>

definition andAlso :: "error + bool \<Rightarrow> error + bool \<Rightarrow> error + bool" where
  "andAlso p q = (case p of Inl e \<Rightarrow> Inl e | Inr t \<Rightarrow> if t then q else Inr False)"

definition orElse :: "error + bool \<Rightarrow> error + bool \<Rightarrow> error + bool" where
  "orElse p q = (case p of Inl e \<Rightarrow> Inl e | Inr t \<Rightarrow> if t then Inr True else q)"

text \<open>\<open>this.board[row][col] === this.currentPlayer\<close>\<close>

definition cellIsPlayer :: "TicTacToe \<Rightarrow> int \<Rightarrow> int \<Rightarrow> error + bool" where
  "cellIsPlayer s row col =
     (case getCell (board s) row col of
        Inl e \<Rightarrow> Inl e
      | Inr v \<Rightarrow> Inr (v = Some (currentPlayer s)))"

subsection \<open>The methods that both variants share\<close>

definition createBoard :: board where
  "createBoard = [['''', '''', ''''], ['''', '''', ''''], ['''', '''', '''']]"

definition constructor :: TicTacToe where
  "constructor =
     \<lparr> display = [BindHandler],
       board = createBoard,
       waiting = False,
       score = \<lparr> score_x = 0, score_o = 0 \<rparr>,
       currentPlayer = players_x,
       timers = [] \<rparr>"

definition startGame :: "TicTacToe \<Rightarrow> TicTacToe" where
  "startGame s = s\<lparr> display := display s @ [PrintScoreBoard (score s), PrintGameBoard (board s)] \<rparr>"

definition isGameWon :: "TicTacToe \<Rightarrow> int \<Rightarrow> int \<Rightarrow> error + bool" where
  "isGameWon s row col =
     (case
        orElse
          (orElse
            (andAlso (andAlso (cellIsPlayer s row 0) (cellIsPlayer s row 1)) (cellIsPlayer s row 2))
            (andAlso (andAlso (cellIsPlayer s 0 col) (cellIsPlayer s 1 col)) (cellIsPlayer s 2 col)))
          (orElse
            (andAlso (andAlso (cellIsPlayer s 0 0) (cellIsPlayer s 1 1)) (cellIsPlayer s 2 2))
            (andAlso (andAlso (cellIsPlayer s 2 0) (cellIsPlayer s 1 1)) (cellIsPlayer s 0 2)))
      of
        Inl e \<Rightarrow> Inl e
      | Inr t \<Rightarrow> if t then Inr True else Inr False)"

definition switchPlayer :: "TicTacToe \<Rightarrow> TicTacToe" where
  "switchPlayer s =
     s\<lparr> currentPlayer := (if currentPlayer s = players_x then players_o else players_x) \<rparr>"

text \<open>
  \<open>n + 1\<close> on a double \<open>n\<close> that holds a non-negative integer. Below \<open>2 ^ 53\<close> every
  integer is a double and the sum is exact. From \<open>2 ^ 53\<close> to \<open>2 ^ 54\<close> the doubles are
  the even integers, with mantissa \<open>n div 2\<close>: the exact sum lies half way between \<open>n\<close>
  and \<open>n + 2\<close> and is rounded to the one whose mantissa is even. From \<open>2 ^ 54\<close> on the
  doubles are at least 4 apart and the sum is rounded back to \<open>n\<close>.
\<close>

definition js_add_one :: "nat \<Rightarrow> nat" where
  "js_add_one n =
     (if n < 2 ^ 53 then n + 1
      else if n < 2 ^ 54 \<and> odd (n div 2) then n + 2
      else n)"

text \<open>
  \<open>this.score[this.currentPlayer] += 1\<close>. A key other than \<open>x\<close> and \<open>o\<close> would get a
  property of its own and leave the two counters as they are.
\<close>

definition increaseScore :: "TicTacToe \<Rightarrow> TicTacToe" where
  "increaseScore s =
     (if currentPlayer s = ''x''
      then s\<lparr> score := (score s)\<lparr> score_x := js_add_one (score_x (score s)) \<rparr> \<rparr>
      else if currentPlayer s = ''o''
      then s\<lparr> score := (score s)\<lparr> score_o := js_add_one (score_o (score s)) \<rparr> \<rparr>
      else s)"

definition resetBoard :: "TicTacToe \<Rightarrow> TicTacToe" where
  "resetBoard s =
     s\<lparr> display := display s @ [ClearMessage, ClearGameBoard], board := createBoard \<rparr>"

text \<open>The function that \<open>gameOver\<close> hands to \<open>setTimeout\<close>.\<close>

definition resetCallback :: "TicTacToe \<Rightarrow> TicTacToe" where
  "resetCallback s = (resetBoard s)\<lparr> waiting := False \<rparr>"

definition gameOver :: "TicTacToe \<Rightarrow> string option \<Rightarrow> TicTacToe" where
  "gameOver s winner =
     s\<lparr> waiting := True, display := display s @ [PrintMessage winner], timers := timers s @ [wait] \<rparr>"

text \<open>
  \<open>this.board.map(row => row.filter(col => col === '')).filter(row => row.length > 0)\<close>
\<close>

definition stalemate :: "board \<Rightarrow> string list list" where
  "stalemate b = filter (\<lambda>row. length row > 0) (map (filter (\<lambda>col. col = '''')) b)"

subsection \<open>\<open>clickCell\<close>, TypeScript variant\<close>

text \<open>
  A call either returns (\<open>Inr\<close>) or throws (\<open>Inl\<close>); in both cases the object is left
  in the state given.
\<close>

type_synonym outcome = "(error \<times> TicTacToe) + TicTacToe"

definition after :: "outcome \<Rightarrow> TicTacToe" where
  "after r = (case r of Inl (e, s) \<Rightarrow> s | Inr s \<Rightarrow> s)"

text \<open>
  The body of \<open>clickCell\<close> is made of two blocks of statements that both variants have
  word for word, and that are named here so that each variant can be written as the
  source nests them. \<open>markCell\<close> is the assignment of the mark followed by
  \<open>this.display.updateBoard(row, col, this.currentPlayer)\<close>. \<open>settle\<close> is the statement
  \<open>if (!this.waiting) { if (win) ... else if (stalemate.length < 1) ... else ... }\<close>,
  given the value of \<open>win\<close>; in its first branch \<open>increaseScore\<close>, \<open>display.updateScore\<close>
  and \<open>gameOver(this.currentPlayer)\<close> run in this order.
\<close>

definition markCell :: "TicTacToe \<Rightarrow> int \<Rightarrow> int \<Rightarrow> TicTacToe" where
  "markCell s row col =
     s\<lparr> board := setCell (board s) row col (currentPlayer s),
        display := display s @ [UpdateBoard row col (currentPlayer s)] \<rparr>"

definition settle :: "TicTacToe \<Rightarrow> bool \<Rightarrow> TicTacToe" where
  "settle s win =
     (if \<not> waiting s then
        if win then
          (let s1 = increaseScore s;
               s2 = s1\<lparr> display := display s1 @ [UpdateScore (score s1) (currentPlayer s1)] \<rparr>
           in gameOver s2 (Some (currentPlayer s2)))
        else if length (stalemate (board s)) < 1 then gameOver s None
        else switchPlayer s
      else s)"

definition clickCell :: "TicTacToe \<Rightarrow> int \<Rightarrow> int \<Rightarrow> outcome" where
  "clickCell s row col =
     (case getCell (board s) row col of
        Inl e \<Rightarrow> Inl (e, s)
      | Inr v \<Rightarrow>
          (let canContinue = (v = Some '''') in
           if canContinue \<and> \<not> waiting s then
             (let s1 = markCell s row col in
              case isGameWon s1 row col of
                Inl e \<Rightarrow> Inl (e, s1)
              | Inr win \<Rightarrow> Inr (settle s1 win))
           else Inr s))"

subsection \<open>\<open>clickCell\<close>, JavaScript variant\<close>

text \<open>
  Here the test \<open>canContinue && !this.waiting\<close> guards the mark only; \<open>isGameWon\<close> and
  the statement \<open>if (!this.waiting) ...\<close> follow it on every call.
\<close>

definition clickCell_js :: "TicTacToe \<Rightarrow> int \<Rightarrow> int \<Rightarrow> outcome" where
  "clickCell_js s row col =
     (case getCell (board s) row col of
        Inl e \<Rightarrow> Inl (e, s)
      | Inr v \<Rightarrow>
          (let canContinue = (v = Some '''');
               s1 = (if canContinue \<and> \<not> waiting s then markCell s row col else s)
           in case isGameWon s1 row col of
                Inl e \<Rightarrow> Inl (e, s1)
              | Inr win \<Rightarrow> Inr (settle s1 win)))"

subsection \<open>The words of the specification\<close>

text \<open>The board has three rows of three cells.\<close>

definition wf_board :: "board \<Rightarrow> bool" where
  "wf_board b = (length b = 3 \<and> list_all (\<lambda>r. length r = 3) b)"

text \<open>The eight lines: three rows, three columns, two diagonals.\<close>

definition lines :: "(int \<times> int) list list" where
  "lines =
     [[(0, 0), (0, 1), (0, 2)], [(1, 0), (1, 1), (1, 2)], [(2, 0), (2, 1), (2, 2)],
      [(0, 0), (1, 0), (2, 0)], [(0, 1), (1, 1), (2, 1)], [(0, 2), (1, 2), (2, 2)],
      [(0, 0), (1, 1), (2, 2)], [(2, 0), (1, 1), (0, 2)]]"

definition lineFull :: "board \<Rightarrow> string \<Rightarrow> (int \<times> int) list \<Rightarrow> bool" where
  "lineFull b p l = list_all (\<lambda>(r, c). getCell b r c = Inr (Some p)) l"

definition anyLine :: "board \<Rightarrow> string \<Rightarrow> bool" where
  "anyLine b p = list_ex (lineFull b p) lines"

text \<open>No cell of the board is empty.\<close>

definition boardFull :: "board \<Rightarrow> bool" where
  "boardFull b = list_all (list_all (\<lambda>c. c \<noteq> '''')) b"

text \<open>The number of cells that hold the mark \<open>p\<close>.\<close>

definition countMark :: "board \<Rightarrow> string \<Rightarrow> nat" where
  "countMark b p = count_list (concat b) p"

subsection \<open>Sessions\<close>

text \<open>
  The oldest pending timer fires: it leaves the list of pending timers and its callback
  runs.
  The states of a session are those that the constructor and \<open>startGame\<close> produce,
  followed by any sequence of clicks with any coordinates (TypeScript variant; a click
  that throws leaves the object in the state it had reached) and of firings of pending
  timers.
\<close>

definition fireTimer :: "TicTacToe \<Rightarrow> TicTacToe" where
  "fireTimer s = resetCallback (s\<lparr> timers := tl (timers s) \<rparr>)"

inductive reachable :: "TicTacToe \<Rightarrow> bool" where
  reachable_start: "reachable (startGame constructor)"
| reachable_click: "reachable s \<Longrightarrow> reachable (after (clickCell s row col))"
| reachable_timer: "reachable s \<Longrightarrow> timers s \<noteq> [] \<Longrightarrow> reachable (fireTimer s)"

text \<open>
  What every state of a session satisfies: the board is three by three; the current
  player is one of the two tokens; in an active round the player to move has as many
  marks as the opponent or one less, and while the reset is awaited the player who
  moved last has as many as the opponent or one more; an active round has no full line.
\<close>

definition opponent :: "string \<Rightarrow> string" where
  "opponent p = (if p = ''x'' then ''o'' else ''x'')"

definition sessionInvariant :: "TicTacToe \<Rightarrow> bool" where
  "sessionInvariant s =
     (wf_board (board s) \<and>
      (currentPlayer s = ''x'' \<or> currentPlayer s = ''o'') \<and>
      (let p = countMark (board s) (currentPlayer s);
           q = countMark (board s) (opponent (currentPlayer s))
       in if waiting s then q \<le> p \<and> p \<le> q + 1 else p \<le> q \<and> q \<le> p + 1) \<and>
      (waiting s \<or> \<not> (anyLine (board s) ''x'' \<or> anyLine (board s) ''o'')))"

section \<open>Properties\<close>

subsection \<open>Helpers\<close>

lemma wf_board_explicit:
  assumes "wf_board b"
  obtains a0 a1 a2 a3 a4 a5 a6 a7 a8 where "b = [[a0, a1, a2], [a3, a4, a5], [a6, a7, a8]]"
proof -
  have three: "\<exists>u v w. xs = [u, v, w]" if "length xs = 3" for xs :: "'a list"
    using that by (auto simp: numeral_3_eq_3 length_Suc_conv)
  from assms obtain r0 r1 r2 where b: "b = [r0, r1, r2]"
    using three [of b] by (auto simp: wf_board_def)
  with assms have "length r0 = 3" "length r1 = 3" "length r2 = 3"
    by (simp_all add: wf_board_def)
  then obtain a0 a1 a2 a3 a4 a5 a6 a7 a8
    where "r0 = [a0, a1, a2]" "r1 = [a3, a4, a5]" "r2 = [a6, a7, a8]"
    using three [of r0] three [of r1] three [of r2] by auto
  with b show thesis by (auto intro: that)
qed

lemma in_range_cases:
  assumes "0 \<le> (i::int)" "i < 3"
  shows "i = 0 \<or> i = 1 \<or> i = 2"
  using assms by arith

lemma getCell_explicit [simp]:
  "getCell [[a0, a1, a2], [a3, a4, a5], [a6, a7, a8]] 0 0 = Inr (Some a0)"
  "getCell [[a0, a1, a2], [a3, a4, a5], [a6, a7, a8]] 0 1 = Inr (Some a1)"
  "getCell [[a0, a1, a2], [a3, a4, a5], [a6, a7, a8]] 0 2 = Inr (Some a2)"
  "getCell [[a0, a1, a2], [a3, a4, a5], [a6, a7, a8]] 1 0 = Inr (Some a3)"
  "getCell [[a0, a1, a2], [a3, a4, a5], [a6, a7, a8]] 1 1 = Inr (Some a4)"
  "getCell [[a0, a1, a2], [a3, a4, a5], [a6, a7, a8]] 1 2 = Inr (Some a5)"
  "getCell [[a0, a1, a2], [a3, a4, a5], [a6, a7, a8]] 2 0 = Inr (Some a6)"
  "getCell [[a0, a1, a2], [a3, a4, a5], [a6, a7, a8]] 2 1 = Inr (Some a7)"
  "getCell [[a0, a1, a2], [a3, a4, a5], [a6, a7, a8]] 2 2 = Inr (Some a8)"
  by (simp_all add: getCell_def js_index_def)

lemma setCell_explicit [simp]:
  "setCell [[a0, a1, a2], [a3, a4, a5], [a6, a7, a8]] 0 0 v = [[v, a1, a2], [a3, a4, a5], [a6, a7, a8]]"
  "setCell [[a0, a1, a2], [a3, a4, a5], [a6, a7, a8]] 0 1 v = [[a0, v, a2], [a3, a4, a5], [a6, a7, a8]]"
  "setCell [[a0, a1, a2], [a3, a4, a5], [a6, a7, a8]] 0 2 v = [[a0, a1, v], [a3, a4, a5], [a6, a7, a8]]"
  "setCell [[a0, a1, a2], [a3, a4, a5], [a6, a7, a8]] 1 0 v = [[a0, a1, a2], [v, a4, a5], [a6, a7, a8]]"
  "setCell [[a0, a1, a2], [a3, a4, a5], [a6, a7, a8]] 1 1 v = [[a0, a1, a2], [a3, v, a5], [a6, a7, a8]]"
  "setCell [[a0, a1, a2], [a3, a4, a5], [a6, a7, a8]] 1 2 v = [[a0, a1, a2], [a3, a4, v], [a6, a7, a8]]"
  "setCell [[a0, a1, a2], [a3, a4, a5], [a6, a7, a8]] 2 0 v = [[a0, a1, a2], [a3, a4, a5], [v, a7, a8]]"
  "setCell [[a0, a1, a2], [a3, a4, a5], [a6, a7, a8]] 2 1 v = [[a0, a1, a2], [a3, a4, a5], [a6, v, a8]]"
  "setCell [[a0, a1, a2], [a3, a4, a5], [a6, a7, a8]] 2 2 v = [[a0, a1, a2], [a3, a4, a5], [a6, a7, v]]"
  by (simp_all add: setCell_def js_index_def)

lemma anyLine_explicit:
  "anyLine [[a0, a1, a2], [a3, a4, a5], [a6, a7, a8]] p =
    ((a0 = p \<and> a1 = p \<and> a2 = p) \<or> (a3 = p \<and> a4 = p \<and> a5 = p) \<or> (a6 = p \<and> a7 = p \<and> a8 = p) \<or>
     (a0 = p \<and> a3 = p \<and> a6 = p) \<or> (a1 = p \<and> a4 = p \<and> a7 = p) \<or> (a2 = p \<and> a5 = p \<and> a8 = p) \<or>
     (a0 = p \<and> a4 = p \<and> a8 = p) \<or> (a6 = p \<and> a4 = p \<and> a2 = p))"
  by (simp add: anyLine_def lines_def lineFull_def)

text \<open>
  The check after a mark, on a board that had no line of the player's before: the row
  and the column of the cell and the two diagonals are all the lines that can be new.
\<close>

lemma won_after_mark:
  assumes wf: "wf_board b" and r: "0 \<le> row" "row < 3" and c: "0 \<le> col" "col < 3"
    and none: "\<not> anyLine b (currentPlayer s)"
    and s: "board s = setCell b row col (currentPlayer s)"
  shows "isGameWon s row col = Inr (anyLine (board s) (currentPlayer s))"
proof -
  define p where "p = currentPlayer s"
  from wf obtain a0 a1 a2 a3 a4 a5 a6 a7 a8
    where b: "b = [[a0, a1, a2], [a3, a4, a5], [a6, a7, a8]]"
    by (rule wf_board_explicit)
  from r have rc: "row = 0 \<or> row = 1 \<or> row = 2" by (rule in_range_cases)
  from c have cc: "col = 0 \<or> col = 1 \<or> col = 2" by (rule in_range_cases)
  from none have n:
    "\<not> ((a0 = p \<and> a1 = p \<and> a2 = p) \<or> (a3 = p \<and> a4 = p \<and> a5 = p) \<or> (a6 = p \<and> a7 = p \<and> a8 = p) \<or>
        (a0 = p \<and> a3 = p \<and> a6 = p) \<or> (a1 = p \<and> a4 = p \<and> a7 = p) \<or> (a2 = p \<and> a5 = p \<and> a8 = p) \<or>
        (a0 = p \<and> a4 = p \<and> a8 = p) \<or> (a6 = p \<and> a4 = p \<and> a2 = p))"
    unfolding b anyLine_explicit p_def .
  show ?thesis
    using rc cc n s unfolding b p_def [symmetric]
    by (elim disjE;
        simp add: anyLine_explicit isGameWon_def cellIsPlayer_def andAlso_def orElse_def p_def [symmetric];
        blast)
qed

text \<open>A full line through the cell just marked is found, whatever else is on the board.\<close>

lemma won_by_line_through_cell:
  assumes wf: "wf_board (board s)" and r: "0 \<le> row" "row < 3" and c: "0 \<le> col" "col < 3"
    and l: "l \<in> set lines" "(row, col) \<in> set l" "lineFull (board s) (currentPlayer s) l"
  shows "isGameWon s row col = Inr True"
proof -
  from wf obtain a0 a1 a2 a3 a4 a5 a6 a7 a8
    where b: "board s = [[a0, a1, a2], [a3, a4, a5], [a6, a7, a8]]"
    by (rule wf_board_explicit)
  from r have rc: "row = 0 \<or> row = 1 \<or> row = 2" by (rule in_range_cases)
  from c have cc: "col = 0 \<or> col = 1 \<or> col = 2" by (rule in_range_cases)
  from l(1) have lc:
    "l = [(0, 0), (0, 1), (0, 2)] \<or> l = [(1, 0), (1, 1), (1, 2)] \<or> l = [(2, 0), (2, 1), (2, 2)] \<or>
     l = [(0, 0), (1, 0), (2, 0)] \<or> l = [(0, 1), (1, 1), (2, 1)] \<or> l = [(0, 2), (1, 2), (2, 2)] \<or>
     l = [(0, 0), (1, 1), (2, 2)] \<or> l = [(2, 0), (1, 1), (0, 2)]"
    by (simp add: lines_def)
  show ?thesis
    using rc cc lc l(2) l(3)
    by (elim disjE;
        simp add: b lineFull_def isGameWon_def cellIsPlayer_def andAlso_def orElse_def)
qed

lemma wf_board_setCell:
  assumes "wf_board b"
  shows "wf_board (setCell b row col v)"
proof (cases "js_index b row")
  case None
  then show ?thesis using assms by (simp add: setCell_def)
next
  case (Some r)
  then have "r \<in> set b"
    by (auto simp: js_index_def split: if_splits)
  with assms have "length (r[nat col := v]) = 3"
    by (simp add: wf_board_def list_all_iff)
  moreover have "set (b[nat row := r[nat col := v]]) \<subseteq> insert (r[nat col := v]) (set b)"
    by (rule set_update_subset_insert)
  ultimately have "wf_board (b[nat row := r[nat col := v]])"
    using assms by (auto simp: wf_board_def list_all_iff)
  with Some assms show ?thesis
    by (simp add: setCell_def)
qed

subsection \<open>Win detection\<close>

text \<open>
  Claim C1. Take a board of three by three with no line of player \<open>p\<close>'s marks, and let
  \<open>p\<close>, the current player, mark the cell \<open>(row, col)\<close>, both coordinates in 0..2. Then
  \<open>isGameWon(row, col)\<close> returns, and it returns true exactly when one of the eight
  lines consists of \<open>p\<close>'s marks. In particular, for each of the eight lines: when the
  line is full of \<open>p\<close>'s marks and the activated cell lies on it, the win is detected.
\<close>

theorem isGameWon_iff_line:
  assumes "wf_board b" and "0 \<le> row" "row < 3" and "0 \<le> col" "col < 3"
    and "\<not> anyLine b (currentPlayer s)"
    and "board s = setCell b row col (currentPlayer s)"
  shows "isGameWon s row col = Inr (anyLine (board s) (currentPlayer s)) \<and>
         (\<forall>l \<in> set lines. (row, col) \<in> set l \<and> lineFull (board s) (currentPlayer s) l \<longrightarrow>
            isGameWon s row col = Inr True)"
proof
  show "isGameWon s row col = Inr (anyLine (board s) (currentPlayer s))"
    using assms by (rule won_after_mark)
next
  have "wf_board (board s)"
    unfolding assms(7) using assms(1) by (rule wf_board_setCell)
  then show "\<forall>l \<in> set lines. (row, col) \<in> set l \<and> lineFull (board s) (currentPlayer s) l \<longrightarrow>
            isGameWon s row col = Inr True"
    using assms(2-5) by (blast intro: won_by_line_through_cell)
qed

theorem isGameWon_iff_line_witness:
  "wf_board [[''x'', ''x'', ''''], [''o'', ''o'', ''''], ['''', '''', '''']] \<and>
   \<not> anyLine [[''x'', ''x'', ''''], [''o'', ''o'', ''''], ['''', '''', '''']] ''x'' \<and>
   isGameWon (constructor\<lparr> board := [[''x'', ''x'', ''x''], [''o'', ''o'', ''''], ['''', '''', '''']] \<rparr>) 0 2
     = Inr True \<and>
   anyLine [[''x'', ''x'', ''x''], [''o'', ''o'', ''''], ['''', '''', '''']] ''x''"
proof -
  let ?b = "[[''x'', ''x'', ''''], [''o'', ''o'', ''''], ['''', '''', '''']]"
  let ?s = "constructor\<lparr> board := [[''x'', ''x'', ''x''], [''o'', ''o'', ''''], ['''', '''', '''']] \<rparr>"
  have wf: "wf_board ?b" by (simp add: wf_board_def)
  have none: "\<not> anyLine ?b (currentPlayer ?s)"
    by (simp add: anyLine_explicit constructor_def players_x_def)
  have s: "board ?s = setCell ?b 0 2 (currentPlayer ?s)"
    by (simp add: constructor_def players_x_def)
  have line: "anyLine [[''x'', ''x'', ''x''], [''o'', ''o'', ''''], ['''', '''', '''']] ''x''"
    by (simp add: anyLine_explicit)
  have "isGameWon ?s 0 2 = Inr (anyLine (board ?s) (currentPlayer ?s))"
    using isGameWon_iff_line [OF wf _ _ _ _ none s] by simp
  then have "isGameWon ?s 0 2 = Inr True"
    using line by (simp add: constructor_def players_x_def)
  with wf none line show ?thesis
    by (simp add: constructor_def players_x_def)
qed

subsection \<open>The deferred reset\<close>

text \<open>
  Claim C5. In every state (so in every state that awaits the reset), after the
  deferred reset callback has run, all nine cells of the board are empty and the round
  is active again: \<open>waiting\<close> is false.
\<close>

theorem resetCallback_empties_board:
  "board (resetCallback s) = [['''', '''', ''''], ['''', '''', ''''], ['''', '''', '''']] \<and>
   \<not> waiting (resetCallback s)"
  by (simp add: resetCallback_def resetBoard_def createBoard_def)

text \<open>
  Claim C8. The deferred reset callback leaves the current player and both players'
  scores as they were: the turn and the score carry over into the next round.
\<close>

theorem resetCallback_keeps_player_and_score:
  "currentPlayer (resetCallback s) = currentPlayer s \<and>
   score_x (score (resetCallback s)) = score_x (score s) \<and>
   score_o (score (resetCallback s)) = score_o (score s)"
  by (simp add: resetCallback_def resetBoard_def)

subsection \<open>What a click leaves alone\<close>

lemma board_settle [simp]: "board (settle s win) = board s"
  by (simp add: settle_def Let_def increaseScore_def gameOver_def switchPlayer_def)

lemma settle_waiting [simp]: "waiting s \<Longrightarrow> settle s win = s"
  by (simp add: settle_def)

lemma board_markCell [simp]:
  "board (markCell s row col) = setCell (board s) row col (currentPlayer s)"
  by (simp add: markCell_def)

lemma currentPlayer_markCell [simp]: "currentPlayer (markCell s row col) = currentPlayer s"
  by (simp add: markCell_def)

lemma waiting_markCell [simp]: "waiting (markCell s row col) = waiting s"
  by (simp add: markCell_def)

lemma score_markCell [simp]: "score (markCell s row col) = score s"
  by (simp add: markCell_def)

lemma getCell_row_outside:
  assumes "wf_board b" "row < 0 \<or> 2 < row"
  shows "getCell b row col = Inl TypeError"
  using assms by (auto simp: getCell_def js_index_def wf_board_def)

lemma getCell_col_outside:
  assumes "wf_board b" "0 \<le> row" "row \<le> 2" "col < 0 \<or> 2 < col"
  shows "getCell b row col = Inr None"
  using assms by (auto simp: getCell_def js_index_def wf_board_def list_all_length)

lemma getCell_Some_range:
  assumes "wf_board b" "getCell b row col = Inr (Some v)"
  shows "0 \<le> row \<and> row < 3 \<and> 0 \<le> col \<and> col < 3"
  using assms
  by (auto simp: getCell_def js_index_def wf_board_def list_all_length
           split: option.splits if_splits)

text \<open>
  The TypeScript variant does nothing at all on a cell that is not empty, whatever the
  phase.
\<close>

lemma clickCell_occupied_noop:
  assumes "getCell (board s) row col = Inr v" "v \<noteq> Some ''''"
  shows "clickCell s row col = Inr s"
  using assms by (simp add: clickCell_def)

lemma board_after_clickCell:
  "board (after (clickCell s row col)) =
     (if getCell (board s) row col = Inr (Some '''') \<and> \<not> waiting s
      then setCell (board s) row col (currentPlayer s) else board s)"
  by (auto simp add: clickCell_def after_def Let_def split: sum.splits)

lemma board_after_clickCell_js:
  "board (after (clickCell_js s row col)) =
     (if getCell (board s) row col = Inr (Some '''') \<and> \<not> waiting s
      then setCell (board s) row col (currentPlayer s) else board s)"
  by (auto simp add: clickCell_js_def after_def Let_def split: sum.splits)

lemma getCell_setCell_other:
  assumes "getCell b r c = Inr (Some v)" "getCell b row col = Inr (Some w)" "v \<noteq> w"
  shows "getCell (setCell b row col u) r c = Inr (Some v)"
  using assms
  by (auto simp: getCell_def setCell_def js_index_def nth_list_update
           split: option.splits if_splits)

text \<open>
  Claim C7. In every state that awaits the reset (\<open>waiting\<close> is true) and for all
  coordinates, \<open>clickCell\<close> leaves the object as it was, whether the call returns or
  throws: the board, both scores and the current player are unchanged. This holds for
  both variants.
\<close>

theorem clickCell_while_waiting:
  assumes "waiting s"
  shows "after (clickCell s row col) = s \<and> after (clickCell_js s row col) = s"
  using assms
  by (simp add: clickCell_def clickCell_js_def after_def split: sum.splits)

theorem clickCell_while_waiting_witness:
  "waiting (gameOver (startGame constructor) None) \<and>
   after (clickCell (gameOver (startGame constructor) None) 1 1)
     = gameOver (startGame constructor) None \<and>
   after (clickCell_js (gameOver (startGame constructor) None) 1 1)
     = gameOver (startGame constructor) None"
proof -
  have w: "waiting (gameOver (startGame constructor) None)"
    by (simp add: gameOver_def)
  from clickCell_while_waiting [OF w, of 1 1] w show ?thesis
    by simp
qed

text \<open>
  Claim C2, JavaScript variant. On the opening board \<open>x\<close> marks the centre; the turn
  passes to \<open>o\<close> and the round stays active. A second click on the centre, now marked,
  leaves the board alone and hands the turn back to \<open>x\<close>.
\<close>

theorem clickCell_js_occupied_passes_turn:
  "\<not> waiting (after (clickCell_js (startGame constructor) 1 1)) \<and>
   getCell (board (after (clickCell_js (startGame constructor) 1 1))) 1 1 = Inr (Some ''x'') \<and>
   currentPlayer (after (clickCell_js (startGame constructor) 1 1)) = ''o'' \<and>
   clickCell_js (after (clickCell_js (startGame constructor) 1 1)) 1 1
     = Inr ((after (clickCell_js (startGame constructor) 1 1))\<lparr> currentPlayer := ''x'' \<rparr>)"
  by (simp add: clickCell_js_def after_def startGame_def constructor_def createBoard_def
        players_x_def players_o_def markCell_def isGameWon_def cellIsPlayer_def andAlso_def
        orElse_def settle_def stalemate_def switchPlayer_def Let_def)

text \<open>
  Claim C6 as stated fails: a row outside 0..2 makes the first statement of \<open>clickCell\<close>
  read a property of \<open>undefined\<close>, and the call throws.
\<close>

theorem clickCell_row_3_throws:
  "clickCell (startGame constructor) 3 0 = Inl (TypeError, startGame constructor)"
  by (simp add: clickCell_def startGame_def constructor_def createBoard_def getCell_def
        js_index_def)

text \<open>
  Claim C6, amended. On a board of three by three: when \<open>row\<close> lies outside 0..2,
  \<open>clickCell\<close> (either variant) throws a \<open>TypeError\<close> at its first read, before any
  assignment, so the board, the scores, the current player and the phase are
  unchanged; when \<open>row\<close> lies in 0..2 and \<open>col\<close> outside 0..2, \<open>clickCell\<close> of the
  TypeScript variant returns without an error and changes nothing.
\<close>

theorem clickCell_out_of_range:
  assumes "wf_board (board s)"
  shows "(row < 0 \<or> 2 < row \<longrightarrow>
            clickCell s row col = Inl (TypeError, s) \<and> clickCell_js s row col = Inl (TypeError, s)) \<and>
         (0 \<le> row \<and> row \<le> 2 \<and> (col < 0 \<or> 2 < col) \<longrightarrow> clickCell s row col = Inr s)"
proof (intro conjI impI)
  assume "row < 0 \<or> 2 < row"
  with assms have "getCell (board s) row col = Inl TypeError"
    by (rule getCell_row_outside)
  then show "clickCell s row col = Inl (TypeError, s)"
    and "clickCell_js s row col = Inl (TypeError, s)"
    by (simp_all add: clickCell_def clickCell_js_def)
next
  assume "0 \<le> row \<and> row \<le> 2 \<and> (col < 0 \<or> 2 < col)"
  with assms have "getCell (board s) row col = Inr None"
    by (simp add: getCell_col_outside)
  then show "clickCell s row col = Inr s"
    by (simp add: clickCell_occupied_noop)
qed

theorem clickCell_out_of_range_witness:
  "wf_board (board (startGame constructor)) \<and>
   clickCell (startGame constructor) (- 1) 0 = Inl (TypeError, startGame constructor) \<and>
   clickCell_js (startGame constructor) (- 1) 0 = Inl (TypeError, startGame constructor) \<and>
   clickCell (startGame constructor) 0 3 = Inr (startGame constructor)"
proof -
  have wf: "wf_board (board (startGame constructor))"
    by (simp add: startGame_def constructor_def createBoard_def wf_board_def)
  from clickCell_out_of_range [OF wf, of "- 1" 0] clickCell_out_of_range [OF wf, of 0 3] wf
  show ?thesis by simp
qed

subsection \<open>The board within a round\<close>

text \<open>
  Claim C9. A board of three by three stays three by three under \<open>clickCell\<close> (both
  variants, whether the call returns or throws) and under the deferred reset; and a
  cell that holds a mark holds the same mark after any \<open>clickCell\<close>: a click never
  changes a mark into another one, and never empties a cell. So within a round a cell
  goes from empty to a mark at most once, and only the reset empties cells.
\<close>

theorem board_invariant:
  assumes "wf_board (board s)"
  shows "wf_board (board (after (clickCell s row col))) \<and>
         wf_board (board (after (clickCell_js s row col))) \<and>
         wf_board (board (resetCallback s)) \<and>
         (\<forall>r c v. getCell (board s) r c = Inr (Some v) \<and> v \<noteq> '''' \<longrightarrow>
            getCell (board (after (clickCell s row col))) r c = Inr (Some v) \<and>
            getCell (board (after (clickCell_js s row col))) r c = Inr (Some v))"
proof (intro conjI allI impI)
  show "wf_board (board (after (clickCell s row col)))"
    using assms by (simp add: board_after_clickCell wf_board_setCell)
  show "wf_board (board (after (clickCell_js s row col)))"
    using assms by (simp add: board_after_clickCell_js wf_board_setCell)
  show "wf_board (board (resetCallback s))"
    by (simp add: resetCallback_def resetBoard_def createBoard_def wf_board_def)
next
  fix r c v
  assume "getCell (board s) r c = Inr (Some v) \<and> v \<noteq> ''''"
  then show "getCell (board (after (clickCell s row col))) r c = Inr (Some v)"
    by (simp add: board_after_clickCell getCell_setCell_other)
next
  fix r c v
  assume "getCell (board s) r c = Inr (Some v) \<and> v \<noteq> ''''"
  then show "getCell (board (after (clickCell_js s row col))) r c = Inr (Some v)"
    by (simp add: board_after_clickCell_js getCell_setCell_other)
qed

theorem board_invariant_witness:
  "wf_board (board (after (clickCell (startGame constructor) 0 0))) \<and>
   getCell (board (after (clickCell (startGame constructor) 0 0))) 0 0 = Inr (Some ''x'') \<and>
   currentPlayer (after (clickCell (startGame constructor) 0 0)) = ''o'' \<and>
   getCell (board (after (clickCell (after (clickCell (startGame constructor) 0 0)) 0 0))) 0 0
     = Inr (Some ''x'') \<and>
   getCell (board (after (clickCell_js (after (clickCell (startGame constructor) 0 0)) 0 0))) 0 0
     = Inr (Some ''x'')"
proof -
  let ?s = "after (clickCell (startGame constructor) 0 0)"
  have s: "?s = \<lparr> display = [BindHandler,
                     PrintScoreBoard \<lparr> score_x = 0, score_o = 0 \<rparr>,
                     PrintGameBoard [['''', '''', ''''], ['''', '''', ''''], ['''', '''', '''']],
                     UpdateBoard 0 0 ''x''],
                 board = [[''x'', '''', ''''], ['''', '''', ''''], ['''', '''', '''']],
                 waiting = False, score = \<lparr> score_x = 0, score_o = 0 \<rparr>,
                 currentPlayer = ''o'', timers = [] \<rparr>"
    by (simp add: clickCell_def after_def startGame_def constructor_def createBoard_def
          players_x_def players_o_def markCell_def isGameWon_def cellIsPlayer_def andAlso_def
          orElse_def settle_def stalemate_def switchPlayer_def Let_def)
  have wf: "wf_board (board ?s)"
    by (simp add: s wf_board_def)
  have x: "getCell (board ?s) 0 0 = Inr (Some ''x'') \<and> ''x'' \<noteq> ''''"
    by (simp add: s)
  from board_invariant [OF wf, of 0 0] x
  have "getCell (board (after (clickCell ?s 0 0))) 0 0 = Inr (Some ''x'') \<and>
        getCell (board (after (clickCell_js ?s 0 0))) 0 0 = Inr (Some ''x'')"
    by blast
  with wf x show ?thesis
    by (simp add: s)
qed

subsection \<open>A mark on an empty cell\<close>

lemma stalemate_iff_full: "stalemate b = [] \<longleftrightarrow> boardFull b"
  by (induction b) (auto simp: stalemate_def boardFull_def filter_empty_conv list_all_iff)

lemma clickCell_on_empty:
  assumes wf: "wf_board (board s)" and active: "\<not> waiting s"
    and empty: "getCell (board s) row col = Inr (Some '''')"
    and none: "\<not> anyLine (board s) (currentPlayer s)"
  shows "clickCell s row col =
           Inr (settle (markCell s row col)
                  (anyLine (setCell (board s) row col (currentPlayer s)) (currentPlayer s)))"
proof -
  from wf empty have rng: "0 \<le> row" "row < 3" "0 \<le> col" "col < 3"
    using getCell_Some_range by blast+
  have "isGameWon (markCell s row col) row col =
          Inr (anyLine (board (markCell s row col)) (currentPlayer (markCell s row col)))"
    using wf rng by (rule won_after_mark) (simp_all add: none)
  with active empty show ?thesis
    by (simp add: clickCell_def)
qed

lemma clickCell_on_winning_cell:
  assumes wf: "wf_board (board s)" and active: "\<not> waiting s"
    and empty: "getCell (board s) row col = Inr (Some '''')"
    and l: "l \<in> set lines" "(row, col) \<in> set l"
      "lineFull (setCell (board s) row col (currentPlayer s)) (currentPlayer s) l"
  shows "clickCell s row col = Inr (settle (markCell s row col) True)"
proof -
  from wf empty have rng: "0 \<le> row" "row < 3" "0 \<le> col" "col < 3"
    using getCell_Some_range by blast+
  have "wf_board (board (markCell s row col))"
    using wf by (simp add: wf_board_setCell)
  then have "isGameWon (markCell s row col) row col = Inr True"
    using rng l(1,2) by (rule won_by_line_through_cell) (simp add: l(3))
  with active empty show ?thesis
    by (simp add: clickCell_def)
qed

lemma settle_win:
  assumes "\<not> waiting s"
  shows "waiting (settle s True)"
    and "currentPlayer (settle s True) = currentPlayer s"
    and "currentPlayer s = ''x'' \<Longrightarrow>
           score_x (score (settle s True)) = js_add_one (score_x (score s)) \<and>
           score_o (score (settle s True)) = score_o (score s)"
    and "currentPlayer s = ''o'' \<Longrightarrow>
           score_o (score (settle s True)) = js_add_one (score_o (score s)) \<and>
           score_x (score (settle s True)) = score_x (score s)"
    and "display (settle s True) =
           display s @ [UpdateScore (score (settle s True)) (currentPlayer s),
                        PrintMessage (Some (currentPlayer s))]"
  using assms by (simp_all add: settle_def Let_def increaseScore_def gameOver_def)

lemma settle_no_win:
  assumes "\<not> waiting s"
  shows "settle s False = (if boardFull (board s) then gameOver s None else switchPlayer s)"
  using assms by (simp add: settle_def stalemate_iff_full)

text \<open>
  Claim C3. In an active round on a board of three by three with no line of the
  current player's, let the current player mark an empty cell. The call returns, and
  the round ends as a draw (the display is told that nobody wins) exactly when no cell
  of the board is empty and no line consists of the player's marks. On a draw both
  scores are unchanged and the phase is awaiting-reset. A move that completes a line is
  a win (the display is told that the player wins, and the phase is awaiting-reset),
  also when it fills the ninth cell.
\<close>

theorem draw_iff_full_and_no_line:
  assumes "wf_board (board s)" and "\<not> waiting s"
    and "getCell (board s) row col = Inr (Some '''')"
    and "\<not> anyLine (board s) (currentPlayer s)"
  shows "\<exists>s'. clickCell s row col = Inr s' \<and>
           board s' = setCell (board s) row col (currentPlayer s) \<and>
           (last (display s') = PrintMessage None \<longleftrightarrow>
              boardFull (board s') \<and> \<not> anyLine (board s') (currentPlayer s)) \<and>
           (last (display s') = PrintMessage None \<longrightarrow> waiting s' \<and> score s' = score s) \<and>
           (anyLine (board s') (currentPlayer s) \<longrightarrow>
              last (display s') = PrintMessage (Some (currentPlayer s)) \<and> waiting s')"
proof -
  let ?m = "markCell s row col"
  let ?w = "anyLine (setCell (board s) row col (currentPlayer s)) (currentPlayer s)"
  have click: "clickCell s row col = Inr (settle ?m ?w)"
    using assms by (rule clickCell_on_empty)
  have active: "\<not> waiting ?m"
    using assms(2) by simp
  show ?thesis
  proof (cases ?w)
    case True
    with click active show ?thesis
      by (simp add: settle_win)
  next
    case False
    with click active show ?thesis
      by (simp add: settle_no_win gameOver_def switchPlayer_def markCell_def)
  qed
qed
theorem draw_iff_full_and_no_line_witness:
  "wf_board [[''x'', ''o'', ''x''], [''x'', ''o'', ''o''], [''o'', ''x'', '''']] \<and>
   \<not> anyLine [[''x'', ''o'', ''x''], [''x'', ''o'', ''o''], [''o'', ''x'', '''']] ''x'' \<and>
   last (display (after (clickCell
     ((startGame constructor)\<lparr> board := [[''x'', ''o'', ''x''], [''x'', ''o'', ''o''], [''o'', ''x'', '''']] \<rparr>)
     2 2))) = PrintMessage None \<and>
   waiting (after (clickCell
     ((startGame constructor)\<lparr> board := [[''x'', ''o'', ''x''], [''x'', ''o'', ''o''], [''o'', ''x'', '''']] \<rparr>)
     2 2)) \<and>
   score (after (clickCell
     ((startGame constructor)\<lparr> board := [[''x'', ''o'', ''x''], [''x'', ''o'', ''o''], [''o'', ''x'', '''']] \<rparr>)
     2 2)) = \<lparr> score_x = 0, score_o = 0 \<rparr> \<and>
   wf_board [[''x'', ''o'', ''x''], [''o'', ''x'', ''o''], [''o'', ''x'', '''']] \<and>
   \<not> anyLine [[''x'', ''o'', ''x''], [''o'', ''x'', ''o''], [''o'', ''x'', '''']] ''x'' \<and>
   boardFull [[''x'', ''o'', ''x''], [''o'', ''x'', ''o''], [''o'', ''x'', ''x'']] \<and>
   last (display (after (clickCell
     ((startGame constructor)\<lparr> board := [[''x'', ''o'', ''x''], [''o'', ''x'', ''o''], [''o'', ''x'', '''']] \<rparr>)
     2 2))) = PrintMessage (Some ''x'') \<and>
   waiting (after (clickCell
     ((startGame constructor)\<lparr> board := [[''x'', ''o'', ''x''], [''o'', ''x'', ''o''], [''o'', ''x'', '''']] \<rparr>)
     2 2))"
proof -
  let ?b = "[[''x'', ''o'', ''x''], [''x'', ''o'', ''o''], [''o'', ''x'', '''']]"
  let ?s = "(startGame constructor)\<lparr> board := ?b \<rparr>"
  let ?c = "[[''x'', ''o'', ''x''], [''o'', ''x'', ''o''], [''o'', ''x'', '''']]"
  let ?t = "(startGame constructor)\<lparr> board := ?c \<rparr>"
  have p: "currentPlayer ?s = ''x''" "currentPlayer ?t = ''x''"
    and sc: "score ?s = \<lparr> score_x = 0, score_o = 0 \<rparr>"
    by (simp_all add: startGame_def constructor_def players_x_def)
  have wf: "wf_board (board ?s)" "wf_board (board ?t)"
    by (simp_all add: wf_board_def)
  have active: "\<not> waiting ?s" "\<not> waiting ?t"
    by (simp_all add: startGame_def constructor_def)
  have empty: "getCell (board ?s) 2 2 = Inr (Some '''')" "getCell (board ?t) 2 2 = Inr (Some '''')"
    by simp_all
  have none: "\<not> anyLine (board ?s) (currentPlayer ?s)" "\<not> anyLine (board ?t) (currentPlayer ?t)"
    by (simp_all add: p anyLine_explicit)
  have full: "boardFull [[''x'', ''o'', ''x''], [''o'', ''x'', ''o''], [''o'', ''x'', ''x'']]"
    by (simp add: boardFull_def)
  from draw_iff_full_and_no_line [OF wf(1) active(1) empty(1) none(1)]
  obtain s' where click: "clickCell ?s 2 2 = Inr s'"
    and b: "board s' = setCell (board ?s) 2 2 (currentPlayer ?s)"
    and draw: "last (display s') = PrintMessage None \<longleftrightarrow>
                 boardFull (board s') \<and> \<not> anyLine (board s') (currentPlayer ?s)"
    and then_: "last (display s') = PrintMessage None \<longrightarrow> waiting s' \<and> score s' = score ?s"
    by blast
  have "boardFull (board s') \<and> \<not> anyLine (board s') (currentPlayer ?s)"
    by (simp add: b p boardFull_def anyLine_explicit)
  with draw then_ have "last (display s') = PrintMessage None \<and> waiting s' \<and> score s' = score ?s"
    by blast
  moreover have "after (clickCell ?s 2 2) = s'"
    by (simp add: click after_def)
  ultimately have first:
    "last (display (after (clickCell ?s 2 2))) = PrintMessage None \<and>
     waiting (after (clickCell ?s 2 2)) \<and>
     score (after (clickCell ?s 2 2)) = \<lparr> score_x = 0, score_o = 0 \<rparr>"
    by (simp add: sc)
  from draw_iff_full_and_no_line [OF wf(2) active(2) empty(2) none(2)]
  obtain t' where click': "clickCell ?t 2 2 = Inr t'"
    and b': "board t' = setCell (board ?t) 2 2 (currentPlayer ?t)"
    and win: "anyLine (board t') (currentPlayer ?t) \<longrightarrow>
                last (display t') = PrintMessage (Some (currentPlayer ?t)) \<and> waiting t'"
    by blast
  have "anyLine (board t') (currentPlayer ?t)"
    by (simp add: b' p anyLine_explicit)
  with win have "last (display t') = PrintMessage (Some ''x'') \<and> waiting t'"
    by (simp add: p)
  moreover have "after (clickCell ?t 2 2) = t'"
    by (simp add: click' after_def)
  ultimately have second:
    "last (display (after (clickCell ?t 2 2))) = PrintMessage (Some ''x'') \<and>
     waiting (after (clickCell ?t 2 2))"
    by simp
  from first second wf none full show ?thesis
    by (simp add: p)
qed

subsection \<open>The score\<close>

lemma js_add_one_exact:
  assumes "n < 2 ^ 53"
  shows "js_add_one n = n + 1"
  using assms by (simp add: js_add_one_def)

text \<open>
  Claim C4 as stated fails. With the score of \<open>x\<close> at \<open>2 ^ 53\<close>, \<open>x\<close> marks the empty
  cell that completes the first row of an active round: the round is won and the phase
  is awaiting-reset, but the score of \<open>x\<close> is still \<open>2 ^ 53\<close>, not its previous value
  plus 1, because that sum is no double.
\<close>

theorem win_at_2_53_keeps_score:
  "\<not> waiting ((startGame constructor)\<lparr>
       board := [[''x'', ''x'', ''''], [''o'', ''o'', ''''], ['''', '''', '''']],
       score := \<lparr> score_x = 2 ^ 53, score_o = 0 \<rparr> \<rparr>) \<and>
   lineFull (setCell [[''x'', ''x'', ''''], [''o'', ''o'', ''''], ['''', '''', '''']] 0 2 ''x'') ''x''
     [(0, 0), (0, 1), (0, 2)] \<and>
   waiting (after (clickCell ((startGame constructor)\<lparr>
       board := [[''x'', ''x'', ''''], [''o'', ''o'', ''''], ['''', '''', '''']],
       score := \<lparr> score_x = 2 ^ 53, score_o = 0 \<rparr> \<rparr>) 0 2)) \<and>
   score_x (score (after (clickCell ((startGame constructor)\<lparr>
       board := [[''x'', ''x'', ''''], [''o'', ''o'', ''''], ['''', '''', '''']],
       score := \<lparr> score_x = 2 ^ 53, score_o = 0 \<rparr> \<rparr>) 0 2))) = 2 ^ 53 \<and>
   score_x (score (after (clickCell ((startGame constructor)\<lparr>
       board := [[''x'', ''x'', ''''], [''o'', ''o'', ''''], ['''', '''', '''']],
       score := \<lparr> score_x = 2 ^ 53, score_o = 0 \<rparr> \<rparr>) 0 2))) \<noteq> 2 ^ 53 + 1"
  by (simp add: clickCell_def after_def startGame_def constructor_def players_x_def markCell_def
        isGameWon_def cellIsPlayer_def andAlso_def orElse_def settle_def increaseScore_def
        js_add_one_def gameOver_def lineFull_def Let_def)

text \<open>
  Claim C4, amended. In an active round on a board of three by three, let the current
  player \<open>p\<close> mark an empty cell such that one of the eight lines through that cell then
  consists of \<open>p\<close>'s marks. The call returns; afterwards the phase is awaiting-reset
  (\<open>waiting\<close> is true), the score of the other player is unchanged, and the score of \<open>p\<close>,
  when it was below \<open>2 ^ 53\<close>, is its previous value plus 1.
\<close>

theorem win_increments_score:
  assumes "wf_board (board s)" and "\<not> waiting s"
    and "getCell (board s) row col = Inr (Some '''')"
    and "l \<in> set lines" and "(row, col) \<in> set l"
    and "lineFull (setCell (board s) row col (currentPlayer s)) (currentPlayer s) l"
  shows "\<exists>s'. clickCell s row col = Inr s' \<and> waiting s' \<and>
           (currentPlayer s = ''x'' \<longrightarrow>
              score_o (score s') = score_o (score s) \<and>
              (score_x (score s) < 2 ^ 53 \<longrightarrow> score_x (score s') = score_x (score s) + 1)) \<and>
           (currentPlayer s = ''o'' \<longrightarrow>
              score_x (score s') = score_x (score s) \<and>
              (score_o (score s) < 2 ^ 53 \<longrightarrow> score_o (score s') = score_o (score s) + 1))"
proof -
  let ?m = "markCell s row col"
  have click: "clickCell s row col = Inr (settle ?m True)"
    using assms by (rule clickCell_on_winning_cell)
  have active: "\<not> waiting ?m"
    using assms(2) by simp
  from settle_win [OF active] click show ?thesis
    by (simp add: js_add_one_exact)
qed

theorem win_increments_score_witness:
  "wf_board [[''x'', ''x'', ''''], [''o'', ''o'', ''''], ['''', '''', '''']] \<and>
   [(0, 0), (0, 1), (0, 2)] \<in> set lines \<and>
   waiting (after (clickCell
     ((startGame constructor)\<lparr> board := [[''x'', ''x'', ''''], [''o'', ''o'', ''''], ['''', '''', '''']],
        score := \<lparr> score_x = 4, score_o = 7 \<rparr> \<rparr>) 0 2)) \<and>
   score (after (clickCell
     ((startGame constructor)\<lparr> board := [[''x'', ''x'', ''''], [''o'', ''o'', ''''], ['''', '''', '''']],
        score := \<lparr> score_x = 4, score_o = 7 \<rparr> \<rparr>) 0 2)) = \<lparr> score_x = 5, score_o = 7 \<rparr> \<and>
   wf_board [[''o'', ''o'', ''''], [''x'', ''x'', ''''], [''x'', '''', '''']] \<and>
   waiting (after (clickCell
     ((startGame constructor)\<lparr> board := [[''o'', ''o'', ''''], [''x'', ''x'', ''''], [''x'', '''', '''']],
        score := \<lparr> score_x = 4, score_o = 7 \<rparr>, currentPlayer := ''o'' \<rparr>) 0 2)) \<and>
   score (after (clickCell
     ((startGame constructor)\<lparr> board := [[''o'', ''o'', ''''], [''x'', ''x'', ''''], [''x'', '''', '''']],
        score := \<lparr> score_x = 4, score_o = 7 \<rparr>, currentPlayer := ''o'' \<rparr>) 0 2))
     = \<lparr> score_x = 4, score_o = 8 \<rparr>"
proof -
  let ?b = "[[''x'', ''x'', ''''], [''o'', ''o'', ''''], ['''', '''', '''']]"
  let ?s = "(startGame constructor)\<lparr> board := ?b, score := \<lparr> score_x = 4, score_o = 7 \<rparr> \<rparr>"
  let ?c = "[[''o'', ''o'', ''''], [''x'', ''x'', ''''], [''x'', '''', '''']]"
  let ?t = "(startGame constructor)\<lparr> board := ?c, score := \<lparr> score_x = 4, score_o = 7 \<rparr>,
              currentPlayer := ''o'' \<rparr>"
  have p: "currentPlayer ?s = ''x''" "currentPlayer ?t = ''o''"
    by (simp_all add: startGame_def constructor_def players_x_def)
  have small: "score_x (score ?s) < 2 ^ 53" "score_o (score ?t) < 2 ^ 53"
    by simp_all
  have wf: "wf_board (board ?s)" "wf_board (board ?t)"
    by (simp_all add: wf_board_def)
  have active: "\<not> waiting ?s" "\<not> waiting ?t"
    by (simp_all add: startGame_def constructor_def)
  have empty: "getCell (board ?s) 0 2 = Inr (Some '''')" "getCell (board ?t) 0 2 = Inr (Some '''')"
    by simp_all
  have l: "[(0, 0), (0, 1), (0, 2)] \<in> set lines"
    by (simp add: lines_def)
  have on: "(0, 2) \<in> set [(0::int, 0::int), (0, 1), (0, 2)]"
    by simp
  have full: "lineFull (setCell (board ?s) 0 2 (currentPlayer ?s)) (currentPlayer ?s)
                [(0, 0), (0, 1), (0, 2)]"
      "lineFull (setCell (board ?t) 0 2 (currentPlayer ?t)) (currentPlayer ?t)
                [(0, 0), (0, 1), (0, 2)]"
    by (simp_all add: p lineFull_def)
  from win_increments_score [OF wf(1) active(1) empty(1) l on full(1)] p(1) small(1)
  obtain s' where click: "clickCell ?s 0 2 = Inr s'" and w: "waiting s'"
    and sx: "score_x (score s') = score_x (score ?s) + 1"
    and so: "score_o (score s') = score_o (score ?s)"
    by blast
  have a: "after (clickCell ?s 0 2) = s'"
    by (simp add: click after_def)
  have sc: "score s' = \<lparr> score_x = 5, score_o = 7 \<rparr>"
    using sx so by (cases "score s'") simp
  from win_increments_score [OF wf(2) active(2) empty(2) l on full(2)] p(2) small(2)
  obtain t' where click': "clickCell ?t 0 2 = Inr t'" and w': "waiting t'"
    and to: "score_o (score t') = score_o (score ?t) + 1"
    and tx: "score_x (score t') = score_x (score ?t)"
    by auto
  have a': "after (clickCell ?t 0 2) = t'"
    by (simp add: click' after_def)
  have sc': "score t' = \<lparr> score_x = 4, score_o = 8 \<rparr>"
    using to tx by (cases "score t'") simp
  from wf l w w' show ?thesis
    unfolding a a' sc sc' by simp
qed

text \<open>The addition of doubles at and above \<open>2 ^ 53\<close>, on doubles that hold integers.\<close>

lemma js_add_one_at_limit:
  "js_add_one (2 ^ 53 - 1) = 2 ^ 53"
  "js_add_one (2 ^ 53) = 2 ^ 53"
  "js_add_one (2 ^ 53 + 2) = 2 ^ 53 + 4"
  "js_add_one (2 ^ 54 - 2) = 2 ^ 54"
  "js_add_one (2 ^ 54) = 2 ^ 54"
  by (simp_all add: js_add_one_def)

subsection \<open>Alternation of the marks\<close>

lemma count_list_update:
  assumes "i < length xs" "xs ! i \<noteq> k"
  shows "count_list (xs[i := v]) k = count_list xs k + (if v = k then 1 else 0)"
  using assms
proof (induction xs arbitrary: i)
  case Nil
  then show ?case by simp
next
  case (Cons a xs)
  then show ?case by (cases i) auto
qed

lemma count_list_concat_update:
  assumes "i < length b"
  shows "count_list (concat (b[i := r])) k + count_list (b ! i) k
           = count_list (concat b) k + count_list r k"
  using assms
proof (induction b arbitrary: i)
  case Nil
  then show ?case by simp
next
  case (Cons a b)
  then show ?case by (cases i) auto
qed

lemma countMark_setCell:
  assumes "getCell b row col = Inr (Some '''')" "k \<noteq> ''''"
  shows "countMark (setCell b row col v) k = countMark b k + (if v = k then 1 else 0)"
proof -
  from assms(1) obtain r where r: "js_index b row = Some r" and c: "js_index r col = Some ''''"
    by (auto simp: getCell_def split: option.splits)
  from r have row: "nat row < length b" "b ! nat row = r"
    by (auto simp: js_index_def split: if_splits)
  from c have col: "0 \<le> col" "col < int (length r)" "nat col < length r" "r ! nat col = ''''"
    by (auto simp: js_index_def split: if_splits)
  have "count_list (r[nat col := v]) k = count_list r k + (if v = k then 1 else 0)"
    using col(3) by (rule count_list_update) (simp add: col(4) assms(2) [symmetric])
  moreover have "count_list (concat (b[nat row := r[nat col := v]])) k + count_list (b ! nat row) k
      = count_list (concat b) k + count_list (r[nat col := v]) k"
    using row(1) by (rule count_list_concat_update)
  ultimately show ?thesis
    using r col(1,2) row(2) by (simp add: countMark_def setCell_def)
qed

lemma getCell_setCell:
  "getCell (setCell b row col u) r c =
     (if r = row \<and> c = col \<and> (\<exists>w. getCell b row col = Inr (Some w)) then Inr (Some u)
      else getCell b r c)"
  by (auto simp: getCell_def setCell_def js_index_def nth_list_update
           split: option.splits if_splits)

lemma anyLine_setCell_other:
  assumes pq: "q \<noteq> p" and line: "anyLine (setCell b row col p) q"
  shows "anyLine b q"
proof -
  have cell: "getCell b r c = Inr (Some q)" if "getCell (setCell b row col p) r c = Inr (Some q)" for r c
    using that pq by (simp add: getCell_setCell split: if_splits)
  from line obtain l where l: "l \<in> set lines" "lineFull (setCell b row col p) q l"
    by (auto simp: anyLine_def list_ex_iff)
  from l(2) have "lineFull b q l"
    by (auto simp: lineFull_def list_all_iff dest: cell)
  with l(1) show ?thesis
    by (auto simp: anyLine_def list_ex_iff)
qed

lemma sessionInvariant_start: "sessionInvariant (startGame constructor)"
  by (simp add: sessionInvariant_def startGame_def constructor_def createBoard_def
        wf_board_def players_x_def countMark_def anyLine_explicit opponent_def)

lemma sessionInvariant_fireTimer:
  assumes "sessionInvariant s"
  shows "sessionInvariant (fireTimer s)"
  using assms
  by (auto simp add: sessionInvariant_def fireTimer_def resetCallback_def resetBoard_def
        createBoard_def wf_board_def countMark_def anyLine_explicit opponent_def)

lemma sessionInvariant_settle:
  assumes inv: "sessionInvariant s" and active: "\<not> waiting s"
    and empty: "getCell (board s) row col = Inr (Some '''')"
  shows "sessionInvariant
           (settle (markCell s row col)
              (anyLine (setCell (board s) row col (currentPlayer s)) (currentPlayer s)))"
proof -
  let ?p = "currentPlayer s" and ?q = "opponent (currentPlayer s)"
  let ?b = "setCell (board s) row col (currentPlayer s)"
  let ?m = "markCell s row col"
  from inv have wf: "wf_board (board s)" and p: "?p = ''x'' \<or> ?p = ''o''"
    by (simp_all add: sessionInvariant_def)
  from p have q: "?q \<noteq> ?p" "?q \<noteq> ''''" "?p \<noteq> ''''" "opponent ?q = ?p" "?q = ''x'' \<or> ?q = ''o''"
    by (auto simp: opponent_def)
  from inv active have cnt: "countMark (board s) ?p \<le> countMark (board s) ?q"
      "countMark (board s) ?q \<le> countMark (board s) ?p + 1"
    by (simp_all add: sessionInvariant_def Let_def)
  from inv active p have none: "\<not> anyLine (board s) ?p" "\<not> anyLine (board s) ?q"
    by (auto simp: sessionInvariant_def opponent_def)
  have cp: "countMark ?b ?p = countMark (board s) ?p + 1"
    using empty q(3) by (simp add: countMark_setCell)
  have cq: "countMark ?b ?q = countMark (board s) ?q"
    using empty q(1,2) by (simp add: countMark_setCell)
  have wfb: "wf_board ?b"
    using wf by (rule wf_board_setCell)
  have noq: "\<not> anyLine ?b ?q"
    using anyLine_setCell_other [OF q(1)] none(2) by blast
  have am: "\<not> waiting ?m" using active by simp
  show ?thesis
  proof (cases "anyLine ?b ?p")
    case True
    have "sessionInvariant (settle ?m True)"
      using wfb p cnt cp cq settle_win(1,2) [OF am]
      by (simp add: sessionInvariant_def Let_def)
    with True show ?thesis by simp
  next
    case False
    show ?thesis
    proof (cases "boardFull ?b")
      case True
      with False am wfb p cnt cp cq show ?thesis
        by (simp add: settle_no_win sessionInvariant_def Let_def gameOver_def)
    next
      case full: False
      have sw: "settle ?m False = switchPlayer ?m"
        using am full by (simp add: settle_no_win)
      have cur: "currentPlayer (switchPlayer ?m) = ?q"
        by (simp add: switchPlayer_def opponent_def players_x_def players_o_def)
      have "sessionInvariant (switchPlayer ?m)"
        unfolding sessionInvariant_def cur
        using wfb q(4,5) cnt cp cq False noq p am
        by (auto simp add: switchPlayer_def Let_def)
      with False sw show ?thesis by simp
    qed
  qed
qed

lemma sessionInvariant_clickCell:
  assumes inv: "sessionInvariant s"
  shows "sessionInvariant (after (clickCell s row col))"
proof (cases "getCell (board s) row col = Inr (Some '''') \<and> \<not> waiting s")
  case True
  from inv have wf: "wf_board (board s)" and p: "currentPlayer s = ''x'' \<or> currentPlayer s = ''o''"
    by (simp_all add: sessionInvariant_def)
  from inv True p have none: "\<not> anyLine (board s) (currentPlayer s)"
    by (auto simp: sessionInvariant_def)
  have "clickCell s row col =
          Inr (settle (markCell s row col)
                 (anyLine (setCell (board s) row col (currentPlayer s)) (currentPlayer s)))"
    using wf True none by (simp add: clickCell_on_empty)
  then show ?thesis
    using sessionInvariant_settle [OF inv, of row col] True by (simp add: after_def)
next
  case False
  then have "after (clickCell s row col) = s"
    by (auto simp: clickCell_def after_def split: sum.splits)
  with inv show ?thesis by simp
qed

lemma reachable_sessionInvariant:
  assumes "reachable s"
  shows "sessionInvariant s"
  using assms
proof (induction rule: reachable.induct)
  case reachable_start
  show ?case by (rule sessionInvariant_start)
next
  case (reachable_click s row col)
  then show ?case by (simp add: sessionInvariant_clickCell)
next
  case (reachable_timer s)
  then show ?case by (simp add: sessionInvariant_fireTimer)
qed

text \<open>
  The hypothesis of the theorems on a mark in an active round holds in every active
  state of a session: the player to move has no full line.
\<close>

lemma reachable_active_no_line:
  assumes "reachable s" "\<not> waiting s"
  shows "wf_board (board s) \<and> \<not> anyLine (board s) (currentPlayer s)"
  using reachable_sessionInvariant [OF assms(1)] assms(2)
  by (auto simp: sessionInvariant_def)

text \<open>
  Claim C10. In every state reached from the initial state by clicks (with any
  coordinates) and firings of the deferred reset, the number of cells marked \<open>x\<close> and
  the number of cells marked \<open>o\<close> differ by at most 1.
\<close>

theorem marks_differ_by_at_most_one:
  assumes "reachable s"
  shows "countMark (board s) ''x'' \<le> countMark (board s) ''o'' + 1 \<and>
         countMark (board s) ''o'' \<le> countMark (board s) ''x'' + 1"
  using reachable_sessionInvariant [OF assms]
  by (auto simp: sessionInvariant_def Let_def opponent_def split: if_splits)

theorem marks_differ_by_at_most_one_witness:
  "reachable (after (clickCell (after (clickCell (startGame constructor) 1 1)) 0 2)) \<and>
   board (after (clickCell (after (clickCell (startGame constructor) 1 1)) 0 2))
     = [['''', '''', ''o''], ['''', ''x'', ''''], ['''', '''', '''']] \<and>
   countMark (board (after (clickCell (after (clickCell (startGame constructor) 1 1)) 0 2))) ''x''
     \<le> countMark (board (after (clickCell (after (clickCell (startGame constructor) 1 1)) 0 2))) ''o'' + 1 \<and>
   countMark (board (after (clickCell (after (clickCell (startGame constructor) 1 1)) 0 2))) ''o''
     \<le> countMark (board (after (clickCell (after (clickCell (startGame constructor) 1 1)) 0 2))) ''x'' + 1"
proof -
  let ?s = "after (clickCell (after (clickCell (startGame constructor) 1 1)) 0 2)"
  have r: "reachable ?s"
    by (intro reachable_click reachable_start)
  have b: "board ?s = [['''', '''', ''o''], ['''', ''x'', ''''], ['''', '''', '''']]"
    by (simp add: board_after_clickCell clickCell_def after_def startGame_def constructor_def
          createBoard_def players_x_def players_o_def markCell_def isGameWon_def cellIsPlayer_def
          andAlso_def orElse_def settle_def stalemate_def switchPlayer_def Let_def)
  from marks_differ_by_at_most_one [OF r] r b show ?thesis
    by simp
qed

text \<open>
  The JavaScript variant does not keep the alternation: after \<open>x\<close> has marked the
  centre, a click on the centre hands the turn back to \<open>x\<close>, whose next click places
  a second \<open>x\<close> while no \<open>o\<close> is on the board.
\<close>

lemma clickCell_js_same_player_marks_twice:
  "board (after (clickCell_js (after (clickCell_js (after (clickCell_js
     (startGame constructor) 1 1)) 1 1)) 0 0))
     = [[''x'', '''', ''''], ['''', ''x'', ''''], ['''', '''', '''']]"
  by (simp add: board_after_clickCell_js clickCell_js_def after_def startGame_def
        constructor_def createBoard_def players_x_def players_o_def markCell_def isGameWon_def
        cellIsPlayer_def andAlso_def orElse_def settle_def stalemate_def switchPlayer_def Let_def)

end
